theory Spec2Isabelle
  imports Main "HOL-Library.AList"
begin

section \<open>Python values and builtins used by bender-cpuinfo.py\<close>

text \<open>
  Strings are lists of 8-bit characters (code points below 256); Python integers are
  \<open>int\<close>. An exception is a value of type \<open>exn\<close>; a function that can raise
  returns \<open>exn + 'a\<close> with \<open>Inl\<close> for the raised exception. The interpreter's
  configurable limit on the number of digits in an integer/string conversion is not part
  of the model.
\<close>

datatype exn = ValueError | AttributeError | TypeError | Exception string

definition py_isspace :: "char \<Rightarrow> bool" where
  \<comment> \<open>the characters \<open>int()\<close> skips around a literal: space, \<open>\t \n \v \f \r\<close>, NEL, NBSP\<close>
  "py_isspace c = (c \<in> set [CHR '' '', CHR 0x09, CHR 0x0A, CHR 0x0B, CHR 0x0C, CHR 0x0D,
                              CHR 0x85, CHR 0xA0])"

definition py_isdigit :: "char \<Rightarrow> bool" where
  "py_isdigit c = (c \<in> set ''0123456789'')"

definition digit_val :: "char \<Rightarrow> int" where
  "digit_val c = int (of_char c) - 48"

definition digit_char :: "nat \<Rightarrow> char" where
  "digit_char d = ''0123456789'' ! d"

definition py_strip :: "string \<Rightarrow> string" where
  "py_strip s = rev (dropWhile py_isspace (rev (dropWhile py_isspace s)))"

fun py_digits :: "string \<Rightarrow> bool" where
  \<comment> \<open>decimal digits, single underscores allowed strictly between two digits\<close>
  "py_digits [] = False"
| "py_digits [c] = py_isdigit c"
| "py_digits (c # d # cs) =
     (py_isdigit c \<and> (if d = CHR ''_'' then py_digits cs else py_digits (d # cs)))"

definition py_digits_val :: "string \<Rightarrow> int" where
  "py_digits_val s = foldl (\<lambda>a c. 10 * a + digit_val c) 0 (filter (\<lambda>c. c \<noteq> CHR ''_'') s)"

definition py_int :: "string \<Rightarrow> int option" where
  \<comment> \<open>\<open>int(s)\<close> for a string: \<open>None\<close> stands for the ValueError\<close>
  "py_int s =
     (let b = py_strip s;
          sgn = (case b of c # r \<Rightarrow> if c = CHR ''-'' then - 1 else 1 | [] \<Rightarrow> 1);
          r = (case b of c # r \<Rightarrow> if c = CHR ''+'' \<or> c = CHR ''-'' then r else b | [] \<Rightarrow> [])
      in if py_digits r then Some (sgn * py_digits_val r) else None)"

fun nat_digits :: "nat \<Rightarrow> string" where
  "nat_digits n = (if n < 10 then [digit_char n]
                   else nat_digits (n div 10) @ [digit_char (n mod 10)])"

declare nat_digits.simps [simp del]

definition py_str :: "int \<Rightarrow> string" where
  \<comment> \<open>\<open>str(i)\<close> for an integer\<close>
  "py_str i = (if i < 0 then CHR ''-'' # nat_digits (nat (- i)) else nat_digits (nat i))"

fun py_split :: "char \<Rightarrow> string \<Rightarrow> string list" where
  \<comment> \<open>\<open>s.split(sep)\<close> for a one-character separator\<close>
  "py_split sep [] = [[]]"
| "py_split sep (c # cs) =
     (if c = sep then [] # py_split sep cs
      else (c # hd (py_split sep cs)) # tl (py_split sep cs))"

fun py_join :: "string \<Rightarrow> string list \<Rightarrow> string" where
  \<comment> \<open>\<open>sep.join(xs)\<close>\<close>
  "py_join sep [] = []"
| "py_join sep [x] = x"
| "py_join sep (x # y # ys) = x @ sep @ py_join sep (y # ys)"

definition remove_newlines :: "string \<Rightarrow> string" where
  \<comment> \<open>\<open>s.replace("\n", "")\<close>\<close>
  "remove_newlines s = filter (\<lambda>c. c \<noteq> CHR 0x0A) s"

section \<open>The range codec: convert_to_ranges and cpu_sorted\<close>

text \<open>
  \<open>convert_to_ranges\<close>: \<open>ranges_loop ranges start prev rest\<close> is the state of the
  \<open>for i in range(1, len(numbers))\<close> loop, with \<open>prev = numbers[i - 1]\<close> and
  \<open>rest = numbers[i:]\<close>; when the list is exhausted the pair \<open>(start, numbers[-1])\<close>
  is appended.
\<close>

fun ranges_loop :: "(int \<times> int) list \<Rightarrow> int \<Rightarrow> int \<Rightarrow> int list \<Rightarrow> (int \<times> int) list" where
  "ranges_loop ranges start prev [] = ranges @ [(start, prev)]"
| "ranges_loop ranges start prev (x # xs) =
     (if x \<noteq> prev + 1 then ranges_loop (ranges @ [(start, prev)]) x x xs
      else ranges_loop ranges start x xs)"

definition format_range :: "int \<times> int \<Rightarrow> string" where
  "format_range r = (case r of (start, end) \<Rightarrow>
     if start \<noteq> end then py_str start @ ''-'' @ py_str end else py_str start)"

definition convert_to_ranges :: "int list \<Rightarrow> string" where
  "convert_to_ranges numbers =
     (case numbers of [] \<Rightarrow> ''''
      | n # ns \<Rightarrow> py_join '','' (map format_range (ranges_loop [] n n ns)))"

text \<open>
  \<open>cpu_sorted\<close>: one iteration of the loop body per comma-separated token. Unpacking
  \<open>start, end = map(int, split_data.split("-"))\<close> raises ValueError when a part is not
  an integer literal or when there are not exactly two parts.
\<close>

definition parse_token :: "string \<Rightarrow> exn + int list" where
  "parse_token split_data =
     (if CHR ''-'' \<in> set split_data then
        (case py_split (CHR ''-'') split_data of
           [a, b] \<Rightarrow>
             (case py_int a of None \<Rightarrow> Inl ValueError
              | Some start \<Rightarrow>
                  (case py_int b of None \<Rightarrow> Inl ValueError
                   | Some end \<Rightarrow> Inr [start..end]))
         | _ \<Rightarrow> Inl ValueError)
      else (case py_int split_data of None \<Rightarrow> Inl ValueError | Some n \<Rightarrow> Inr [n]))"

fun cpu_sorted_loop :: "int list \<Rightarrow> string list \<Rightarrow> exn + int list" where
  "cpu_sorted_loop res [] = Inr res"
| "cpu_sorted_loop res (split_data # rest) =
     (case parse_token split_data of
        Inl e \<Rightarrow> Inl e
      | Inr r \<Rightarrow> cpu_sorted_loop (res @ r) rest)"

definition cpu_sorted :: "string \<Rightarrow> exn + int list" where
  "cpu_sorted data_str = cpu_sorted_loop [] (py_split (CHR '','') (remove_newlines data_str))"

section \<open>CpuInfo objects\<close>

text \<open>
  A \<open>CpuInfo\<close> object has the two scalar attributes \<open>cpu_id\<close> and \<open>isolated\<close>, and
  list-valued attributes addressed by name through \<open>getattr\<close>/\<open>setattr\<close>; \<open>attrs\<close>
  holds the latter in the insertion order of the instance dictionary. \<open>__init__\<close>
  assigns \<open>AllRobotsThCPU\<close> twice, which leaves one key.
\<close>

record CpuInfo =
  cpu_id :: int
  isolated :: bool
  attrs :: "(string \<times> string list) list"

definition role_names :: "string list" where
  "role_names =
     [''net_cpu'', ''TrashCPU'', ''AllRobotsThCPU'', ''RemoteFormulaCPU'', ''GatewaysDefault'',
      ''RobotsDefault'', ''RobotsDefault2'', ''Formula'', ''FormulaListDefault'',
      ''UdpSendCores'', ''UdpReceiveCores'', ''ClickHouseCores'', ''Kafka'', ''GlassNode'',
      ''DumperCPU'', ''Isolated'', ''ServicesCPU'', ''GatewaysOTC'', ''RobotsNode1'',
      ''RobotsNode2'']"

definition CpuInfo_init :: "int \<Rightarrow> CpuInfo" where
  "CpuInfo_init id_cpu =
     \<lparr>cpu_id = id_cpu, isolated = False, attrs = map (\<lambda>n. (n, [])) role_names\<rparr>"

text \<open>The view \<open>self.__dict__.items()\<close>, with the truth value Python gives each entry.\<close>

datatype pyval = PInt int | PBool bool | PList "string list"

fun truthy :: "pyval \<Rightarrow> bool" where
  "truthy (PInt i) = (i \<noteq> 0)"
| "truthy (PBool b) = b"
| "truthy (PList xs) = (xs \<noteq> [])"

definition dict_items :: "CpuInfo \<Rightarrow> (string \<times> pyval) list" where
  "dict_items c =
     (''cpu_id'', PInt (cpu_id c)) # (''isolated'', PBool (isolated c)) #
     map (\<lambda>(k, v). (k, PList v)) (attrs c)"

fun check_free_loop :: "(string \<times> pyval) list \<Rightarrow> bool" where
  "check_free_loop [] = True"
| "check_free_loop ((parameter, val) # rest) =
     (if truthy val \<and> parameter \<notin> set [''isolated'', ''cpu_id'', ''net_cpu''] then False
      else check_free_loop rest)"

definition check_free_bender_cpu :: "CpuInfo \<Rightarrow> bool" where
  "check_free_bender_cpu c = check_free_loop (dict_items c)"

text \<open>
  \<open>update_attribute\<close>. The attribute name is \<open>None\<close> when the caller read it from a
  missing XML attribute; \<open>getattr\<close> then raises TypeError. For a name that is not an
  instance attribute \<open>getattr\<close> falls back to the class: \<open>__doc__\<close> is \<open>None\<close> there
  (falsy), so \<open>setattr\<close> creates the instance attribute; every other class-level name is
  a truthy object without \<open>append\<close> or cannot be set, and a name unknown to the class
  raises AttributeError as well. An exception leaves the object as it was.
\<close>

definition update_attribute :: "string option \<Rightarrow> string \<Rightarrow> CpuInfo \<Rightarrow> exn + CpuInfo" where
  "update_attribute attr_name attr_value c =
     (case attr_name of
        None \<Rightarrow> Inl TypeError
      | Some name \<Rightarrow>
          if name \<notin> set [''cpu_id'', ''isolated''] then
            (case map_of (attrs c) name of
               None \<Rightarrow>
                 if name = ''__doc__''
                 then Inr (c\<lparr>attrs := AList.update name [attr_value] (attrs c)\<rparr>)
                 else Inl AttributeError
             | Some v \<Rightarrow>
                 if v \<noteq> []
                 then Inr (c\<lparr>attrs := AList.update name (v @ [attr_value]) (attrs c)\<rparr>)
                 else Inr (c\<lparr>attrs := AList.update name [attr_value] (attrs c)\<rparr>))
          else Inl (Exception (''update_attribute cant be used for '' @ name)))"

section \<open>The registry CPUS and the functions that fill it\<close>

text \<open>
  \<open>CPUS\<close> is the module-level list of \<open>CpuInfo\<close> objects; every function that
  mutates it takes the list and returns the new one, also when it raises.
  \<open>get_all_cpus\<close> takes the text of \<open>/sys/devices/system/cpu/online\<close>.
\<close>

definition get_all_cpus :: "string \<Rightarrow> exn + CpuInfo list" where
  "get_all_cpus data =
     (case cpu_sorted data of
        Inl e \<Rightarrow> Inl e
      | Inr ids \<Rightarrow> Inr (map CpuInfo_init ids))"

text \<open>
  \<open>get_system_isolated_cpus\<close> takes the text of \<open>/sys/devices/system/cpu/isolated\<close>;
  \<open>get_isolated_cpu\<close> takes the value that function returns.
\<close>

definition get_system_isolated_cpus :: "string \<Rightarrow> exn + int list option" where
  "get_system_isolated_cpus file_text =
     (let data = remove_newlines file_text in
      if data \<noteq> [] then
        (case cpu_sorted data of Inl e \<Rightarrow> Inl e | Inr isolated_system_cpu \<Rightarrow> Inr (Some isolated_system_cpu))
      else Inr None)"

definition get_isolated_cpu :: "int list option \<Rightarrow> CpuInfo list \<Rightarrow> CpuInfo list" where
  "get_isolated_cpu sys_isol_cpus CPUS =
     (case sys_isol_cpus of
        None \<Rightarrow> CPUS
      | Some l \<Rightarrow>
          if l \<noteq> [] then map (\<lambda>cpu. if cpu_id cpu \<in> set l then cpu\<lparr>isolated := True\<rparr> else cpu) CPUS
          else CPUS)"

text \<open>
  \<open>get_cpu_by_id\<close> returns a reference to the first object with the given id: here the
  position of that object in \<open>CPUS\<close>.
\<close>

fun get_cpu_by_id :: "int \<Rightarrow> CpuInfo list \<Rightarrow> nat option" where
  "get_cpu_by_id cid [] = None"
| "get_cpu_by_id cid (cpu # rest) =
     (if cpu_id cpu = cid then Some 0 else map_option Suc (get_cpu_by_id cid rest))"

text \<open>An element of \<open>cores_list: list[int|str]\<close>, with \<open>int(core)\<close> and its rendering in an f-string.\<close>

datatype core = CoreInt int | CoreStr string

fun core_int :: "core \<Rightarrow> int option" where
  "core_int (CoreInt i) = Some i"
| "core_int (CoreStr s) = py_int s"

fun core_str :: "core \<Rightarrow> string" where
  "core_str (CoreInt i) = py_str i"
| "core_str (CoreStr s) = s"

definition name_str :: "string option \<Rightarrow> string" where
  "name_str upd_param = (case upd_param of None \<Rightarrow> ''None'' | Some name \<Rightarrow> name)"

fun update_cpus_loop ::
  "string list \<Rightarrow> core list \<Rightarrow> string option \<Rightarrow> string \<Rightarrow> CpuInfo list \<Rightarrow>
   (exn + string list) \<times> CpuInfo list" where
  "update_cpus_loop update_errors [] upd_param upd_instance CPUS = (Inr update_errors, CPUS)"
| "update_cpus_loop update_errors (core # cores) upd_param upd_instance CPUS =
     (case core_int core of
        None \<Rightarrow> (Inl ValueError, CPUS)
      | Some cid \<Rightarrow>
          (case get_cpu_by_id cid CPUS of
             None \<Rightarrow>
               update_cpus_loop
                 (update_errors @ [name_str upd_param @ '' cpu '' @ core_str core @ '' doesnt exist''])
                 cores upd_param upd_instance CPUS
           | Some i \<Rightarrow>
               (case update_attribute upd_param upd_instance (CPUS ! i) of
                  Inl e \<Rightarrow> (Inl e, CPUS)
                | Inr cpu_for_update \<Rightarrow>
                    update_cpus_loop update_errors cores upd_param upd_instance
                      (CPUS[i := cpu_for_update]))))"

definition update_cpus ::
  "core list \<Rightarrow> string option \<Rightarrow> string \<Rightarrow> CpuInfo list \<Rightarrow> (exn + string list) \<times> CpuInfo list" where
  "update_cpus cores_list upd_param upd_instance CPUS =
     update_cpus_loop [] cores_list upd_param upd_instance CPUS"

text \<open>
  \<open>human_view\<close>: the two lists it derives from the registry (\<open>cpu.isolated is False\<close>
  selects the system CPUs; among the others, \<open>check_free_bender_cpu\<close> the free ones).
\<close>

definition system_cpus :: "CpuInfo list \<Rightarrow> int list" where
  "system_cpus CPUS = map cpu_id (filter (\<lambda>cpu. isolated cpu = False) CPUS)"

definition free_cpus :: "CpuInfo list \<Rightarrow> int list" where
  "free_cpus CPUS =
     map cpu_id (filter (\<lambda>cpu. \<not> (isolated cpu = False) \<and> check_free_bender_cpu cpu) CPUS)"

section \<open>The instance configuration: get_cpu_info_bender\<close>

text \<open>
  The parsed \<open>Runtime.xml\<close> is a tree of elements, each with a tag, its attributes and
  its child elements in document order (comments and text are not modelled).
  \<open>xml_find\<close> is \<open>root.find(tag)\<close>, the first child with that tag; \<open>xml_findall\<close> is
  \<open>root.findall(tag)\<close>; \<open>xml_get\<close> is \<open>element.get(name)\<close>. \<open>xpath root [n1, ..., nk]\<close>
  is \<open>root.xpath(".//n1/.../nk")\<close>: the elements reached from a proper descendant of the
  root tagged \<open>n1\<close> by child steps \<open>n2\<close>, ..., \<open>nk\<close>. The code looks only at the length of
  that result and at its element when there is exactly one.
\<close>

datatype xml = Element (tag: string) (attrib: "(string \<times> string) list") (children: "xml list")

definition xml_find :: "xml \<Rightarrow> string \<Rightarrow> xml option" where
  "xml_find root name = find (\<lambda>e. tag e = name) (children root)"

definition xml_findall :: "xml \<Rightarrow> string \<Rightarrow> xml list" where
  "xml_findall root name = filter (\<lambda>e. tag e = name) (children root)"

definition xml_get :: "xml \<Rightarrow> string \<Rightarrow> string option" where
  "xml_get e name = map_of (attrib e) name"

fun descendants :: "xml \<Rightarrow> xml list" where
  "descendants (Element t a cs) = concat (map (\<lambda>c. c # descendants c) cs)"

definition child_step :: "xml list \<Rightarrow> string \<Rightarrow> xml list" where
  "child_step nodes name = concat (map (\<lambda>e. filter (\<lambda>c. tag c = name) (children e)) nodes)"

definition xpath :: "xml \<Rightarrow> string list \<Rightarrow> xml list" where
  "xpath root path =
     (case path of
        [] \<Rightarrow> []
      | n # ns \<Rightarrow> foldl child_step (filter (\<lambda>e. tag e = n) (descendants root)) ns)"

text \<open>
  \<open>extend_errors node name instance err_cpu CPUS\<close> is the statement
  \<open>err_cpu.extend(update_cpus(node.get("Cores").split(','), name, instance))\<close>, which
  the function runs for every element it acts upon; \<open>.split\<close> on a missing \<open>Cores\<close>
  attribute raises AttributeError.
\<close>

definition extend_errors ::
  "xml \<Rightarrow> string option \<Rightarrow> string \<Rightarrow> string list \<Rightarrow> CpuInfo list \<Rightarrow>
   (exn + string list) \<times> CpuInfo list" where
  "extend_errors node name instance err_cpu CPUS =
     (case xml_get node ''Cores'' of
        None \<Rightarrow> (Inl AttributeError, CPUS)
      | Some cores \<Rightarrow>
          (case update_cpus (map CoreStr (py_split (CHR '','') cores)) name instance CPUS of
             (Inl e, CPUS') \<Rightarrow> (Inl e, CPUS')
           | (Inr update_errors, CPUS') \<Rightarrow> (Inr (err_cpu @ update_errors), CPUS')))"

definition parameters_list :: "string list" where
  "parameters_list = [''AllRobotsThCPU'', ''TrashCPU'', ''RemoteFormulaCPU'', ''DumperCPU'']"

definition udp_types :: "string list" where
  "udp_types = [''Send'', ''Receive'']"

definition special_params :: "(string list \<times> string) list" where
  "special_params =
     [([''TSDatabases'', ''TSDB'', ''Threads''], ''ClickHouseCores''),
      ([''DealsStream'', ''Cpu''], ''Kafka''),
      ([''ServicesCPU''], ''ServicesCPU'')]"

fun parameters_loop ::
  "string list \<Rightarrow> xml \<Rightarrow> string \<Rightarrow> string list \<Rightarrow> CpuInfo list \<Rightarrow>
   (exn + string list) \<times> CpuInfo list" where
  "parameters_loop [] root instance err_cpu CPUS = (Inr err_cpu, CPUS)"
| "parameters_loop (parameter # rest) root instance err_cpu CPUS =
     (case xml_find root parameter of
        None \<Rightarrow> parameters_loop rest root instance err_cpu CPUS
      | Some parameter_xml_obj \<Rightarrow>
          (case extend_errors parameter_xml_obj (Some parameter) instance err_cpu CPUS of
             (Inl e, CPUS') \<Rightarrow> (Inl e, CPUS')
           | (Inr err_cpu', CPUS') \<Rightarrow> parameters_loop rest root instance err_cpu' CPUS'))"

fun alias_loop ::
  "xml list \<Rightarrow> string \<Rightarrow> string list \<Rightarrow> CpuInfo list \<Rightarrow>
   (exn + string list) \<times> CpuInfo list" where
  "alias_loop [] instance err_cpu CPUS = (Inr err_cpu, CPUS)"
| "alias_loop (cpu_alias # rest) instance err_cpu CPUS =
     (case extend_errors cpu_alias (xml_get cpu_alias ''Name'') instance err_cpu CPUS of
        (Inl e, CPUS') \<Rightarrow> (Inl e, CPUS')
      | (Inr err_cpu', CPUS') \<Rightarrow> alias_loop rest instance err_cpu' CPUS')"

fun udp_loop ::
  "string list \<Rightarrow> xml \<Rightarrow> string \<Rightarrow> string list \<Rightarrow> CpuInfo list \<Rightarrow>
   (exn + string list) \<times> CpuInfo list" where
  "udp_loop [] root instance err_cpu CPUS = (Inr err_cpu, CPUS)"
| "udp_loop (udp_type # rest) root instance err_cpu CPUS =
     (let udp_block_send_cpu_path = xpath root [''Udp'', udp_type, ''CPU''] in
      if length udp_block_send_cpu_path = 1 then
        (case extend_errors (udp_block_send_cpu_path ! 0) (Some (''Udp'' @ udp_type @ ''Cores''))
                instance err_cpu CPUS of
           (Inl e, CPUS') \<Rightarrow> (Inl e, CPUS')
         | (Inr err_cpu', CPUS') \<Rightarrow> udp_loop rest root instance err_cpu' CPUS')
      else udp_loop rest root instance err_cpu CPUS)"

fun special_loop ::
  "(string list \<times> string) list \<Rightarrow> xml \<Rightarrow> string \<Rightarrow> string list \<Rightarrow> CpuInfo list \<Rightarrow>
   (exn + string list) \<times> CpuInfo list" where
  "special_loop [] root instance err_cpu CPUS = (Inr err_cpu, CPUS)"
| "special_loop ((param_path, param_name) # rest) root instance err_cpu CPUS =
     (let param_info = xpath root param_path in
      if length param_info = 1 then
        (case extend_errors (param_info ! 0) (Some param_name) instance err_cpu CPUS of
           (Inl e, CPUS') \<Rightarrow> (Inl e, CPUS')
         | (Inr err_cpu', CPUS') \<Rightarrow> special_loop rest root instance err_cpu' CPUS')
      else special_loop rest root instance err_cpu CPUS)"

text \<open>
  \<open>run_lookups\<close> is the body of \<open>get_cpu_info_bender\<close> up to the final test of
  \<open>err_cpu\<close>, with the three literal lists it iterates over as arguments;
  \<open>get_cpu_info_bender_errors\<close> supplies the lists of the source. The result is
  \<open>err_cpu\<close> and the registry. \<open>get_cpu_info_bender\<close> adds the returned value, where
  \<open>list_repr\<close> stands for Python's rendering of a list of strings inside an f-string.
\<close>

definition run_lookups ::
  "string list \<Rightarrow> string list \<Rightarrow> (string list \<times> string) list \<Rightarrow> string \<Rightarrow> xml \<Rightarrow> CpuInfo list \<Rightarrow>
   (exn + string list) \<times> CpuInfo list" where
  "run_lookups params udps specials instance root CPUS =
     (case parameters_loop params root instance [] CPUS of
        (Inl e, CPUS1) \<Rightarrow> (Inl e, CPUS1)
      | (Inr err1, CPUS1) \<Rightarrow>
          (case alias_loop (xml_findall root ''CPUAlias'') instance err1 CPUS1 of
             (Inl e, CPUS2) \<Rightarrow> (Inl e, CPUS2)
           | (Inr err2, CPUS2) \<Rightarrow>
               (case udp_loop udps root instance err2 CPUS2 of
                  (Inl e, CPUS3) \<Rightarrow> (Inl e, CPUS3)
                | (Inr err3, CPUS3) \<Rightarrow> special_loop specials root instance err3 CPUS3)))"

definition get_cpu_info_bender_errors ::
  "string \<Rightarrow> xml \<Rightarrow> CpuInfo list \<Rightarrow> (exn + string list) \<times> CpuInfo list" where
  "get_cpu_info_bender_errors instance root CPUS =
     run_lookups parameters_list udp_types special_params instance root CPUS"

definition get_cpu_info_bender ::
  "(string list \<Rightarrow> string) \<Rightarrow> string \<Rightarrow> xml \<Rightarrow> CpuInfo list \<Rightarrow>
   (exn + string option) \<times> CpuInfo list" where
  "get_cpu_info_bender list_repr instance root CPUS =
     (case get_cpu_info_bender_errors instance root CPUS of
        (Inl e, CPUS') \<Rightarrow> (Inl e, CPUS')
      | (Inr err_cpu, CPUS') \<Rightarrow>
          (if err_cpu \<noteq> [] then (Inr (Some (instance @ '': '' @ list_repr err_cpu)), CPUS')
           else (Inr None, CPUS')))"

section \<open>The consistency check: check_isolation_parameters\<close>

text \<open>
  A boot-parameter dictionary, as \<open>refactor_parameters\<close> builds it, maps a key to
  \<open>True\<close> (a bare flag), a string, the list decoded from \<open>isolcpus=\<close>, or \<open>None\<close>;
  \<open>dict_get\<close> is \<open>d.get(key)\<close>, which is \<open>None\<close> for a missing key. Python's \<open>!=\<close>
  between such values is inequality of the values below.
\<close>

datatype param = ParamNone | ParamTrue | ParamStr string | ParamCpus "int list"

definition dict_get :: "(string \<Rightarrow> param option) \<Rightarrow> string \<Rightarrow> param" where
  "dict_get d key = (case d key of None \<Rightarrow> ParamNone | Some v \<Rightarrow> v)"

definition optional_list :: "int list option \<Rightarrow> param" where
  \<comment> \<open>the value of \<open>get_system_isolated_cpus()\<close> as a Python value\<close>
  "optional_list l = (case l of None \<Rightarrow> ParamNone | Some cpus \<Rightarrow> ParamCpus cpus)"

definition REQ_PARAM_FOR_GR :: "(string \<times> (string \<times> param) list) list" where
  "REQ_PARAM_FOR_GR =
     [(''default'',
         [(''intel_idle.max_cstate'', ParamStr ''0''),
          (''processor.max_cstate'', ParamStr ''0''),
          (''idle'', ParamStr ''poll''),
          (''mitigations'', ParamStr ''off''),
          (''cgroup_disable_cpu'', ParamTrue),
          (''cgroup_disable_memory'', ParamTrue),
          (''nosmt'', ParamTrue)]),
      (''trade_roxana'',
         [(''intel_idle.max_cstate'', ParamStr ''0''),
          (''processor.max_cstate'', ParamStr ''0''),
          (''idle'', ParamStr ''poll''),
          (''mitigations'', ParamStr ''off''),
          (''nosmt'', ParamTrue)])]"

definition check_parameters ::
  "(string \<Rightarrow> param option) \<Rightarrow> (string \<times> param) list option \<Rightarrow> string option" where
  "check_parameters param_dict req_param_dict =
     (let default = (case map_of REQ_PARAM_FOR_GR ''default'' of None \<Rightarrow> [] | Some d \<Rightarrow> d);
          req_parameters =
            (case req_param_dict of None \<Rightarrow> default | Some d \<Rightarrow> if d \<noteq> [] then d else default);
          err_parameters =
            map fst (filter (\<lambda>(key, v). v \<noteq> dict_get param_dict key) req_parameters)
      in if err_parameters \<noteq> [] then Some (''Invalid parameters: '' @ py_join '', '' err_parameters)
         else None)"

definition check_hypertrading :: "string \<Rightarrow> exn + bool" where
  \<comment> \<open>takes the text of \<open>/sys/devices/system/cpu/smt/active\<close>\<close>
  "check_hypertrading file_text =
     (let data = remove_newlines file_text in
      if data = ''1'' then Inr True
      else if data = ''0'' then Inr False
      else Inl (Exception (CHR 0x27 #
             ''/sys/devices/system/cpu/smt/active' - have unsupported value '' @ data)))"

text \<open>
  What \<open>check_isolation_parameters\<close> reads from its collaborators: the results of
  \<open>check_group\<close>, \<open>find_binstances\<close>, \<open>get_grub_parameters\<close>, \<open>get_cmdline_parameters\<close>,
  \<open>get_system_isolated_cpus\<close>, the truth value of the \<open>instance_info\<close> entry and the
  \<open>cpu_error\<close> entry of \<open>get_info_about_cpus\<close>, the two \<open>psutil.cpu_count\<close> values, the
  text of the SMT file and the result of \<open>get_cmdb_primery_gr\<close>.
\<close>

record facts =
  check_group_result :: bool
  binstances :: "string list"
  grub :: "(string \<Rightarrow> param option) option"
  cmdline :: "(string \<Rightarrow> param option) option"
  system :: "int list option"
  instance_info :: bool
  cpu_error :: "string list"
  cpu_count_logical :: "int option"
  cpu_count_physical :: "int option"
  smt_active :: string
  primary_group :: string

definition grub_mismatch :: string where
  "grub_mismatch =
     CHR 0x27 # ''Isolated cpu /sys/devices/system/cpu/isolated' not eq '/etc/default/grub'; ''"

definition cmdline_mismatch :: string where
  "cmdline_mismatch =
     CHR 0x27 # ''Isolated cpu /sys/devices/system/cpu/isolated' not eq '/proc/cmdline'; ''"

text \<open>
  \<open>err_check_parts\<close> lists, in order, the strings that the function appends to
  \<open>err_check\<close>; \<open>grub.get\<close> and \<open>cmdline.get\<close> raise AttributeError on \<open>None\<close>.
\<close>

definition err_check_parts :: "facts \<Rightarrow> exn + string list" where
  "err_check_parts f =
     (case grub f of
        None \<Rightarrow> Inl AttributeError
      | Some grub_d \<Rightarrow>
     (case cmdline f of
        None \<Rightarrow> Inl AttributeError
      | Some cmdline_d \<Rightarrow>
     (case check_hypertrading (smt_active f) of
        Inl e \<Rightarrow> Inl e
      | Inr hypertrading \<Rightarrow>
          (let req_param_for_check = map_of REQ_PARAM_FOR_GR (primary_group f) in
           Inr
            ((if instance_info f \<and> cpu_error f \<noteq> []
              then [''Invalid cpus: '' @ py_join '' '' (cpu_error f) @ ''; ''] else []) @
             (if optional_list (system f) \<noteq> dict_get grub_d ''isolcpus''
              then [grub_mismatch] else []) @
             (if optional_list (system f) \<noteq> dict_get cmdline_d ''isolcpus''
              then [cmdline_mismatch] else []) @
             (if system f = None \<or> system f = Some []
              then [''The server does not have isolated cpus; ''] else []) @
             (if cpu_count_logical f \<noteq> cpu_count_physical f
              then [''Hyperthreading enable, the logical cpus number is not equal to the physical cpus number; '']
              else []) @
             (if hypertrading
              then [''Hyperthreading enable, look '/sys/devices/system/cpu/smt/active'; '']
              else []) @
             (case check_parameters cmdline_d req_param_for_check of
                None \<Rightarrow> []
              | Some cmdline_check \<Rightarrow> [''Cmdline '' @ cmdline_check @ ''; '']) @
             (case check_parameters grub_d req_param_for_check of
                None \<Rightarrow> []
              | Some grub_check \<Rightarrow> [''Grub '' @ grub_check @ ''; ''])))))) "

fun replace_sep :: "string \<Rightarrow> string" where
  \<comment> \<open>\<open>s.replace('; ', '\n')\<close>\<close>
  "replace_sep (a # b # cs) =
     (if a = CHR '';'' \<and> b = CHR '' '' then CHR 0x0A # replace_sep cs
      else a # replace_sep (b # cs))"
| "replace_sep cs = cs"

definition check_isolation_parameters :: "bool \<Rightarrow> facts \<Rightarrow> exn + string" where
  "check_isolation_parameters zabbix f =
     (if zabbix \<and> check_group_result f then Inr ''OK''
      else if zabbix \<and> length (binstances f) = 0 then Inr ''OK''
      else
        (case err_check_parts f of
           Inl e \<Rightarrow> Inl e
         | Inr parts \<Rightarrow>
             (let err_check = concat parts in
              if err_check \<noteq> [] then
                (let err_check = take (length err_check - 2) err_check in
                 if zabbix then Inr (''Error: '' @ err_check) else Inr (replace_sep err_check))
              else Inr ''OK'')))"

section \<open>Notions used to state the properties\<close>

text \<open>
  \<open>ranges_of numbers\<close> is the value of the local list \<open>ranges\<close> when
  \<open>convert_to_ranges\<close> reaches its \<open>return\<close> (empty for the empty input, which
  returns earlier). \<open>separated\<close> says that consecutive ranges of a list can not be
  merged: the next range starts beyond the successor of the end of the previous one.
\<close>

definition ranges_of :: "int list \<Rightarrow> (int \<times> int) list" where
  "ranges_of numbers = (case numbers of [] \<Rightarrow> [] | n # ns \<Rightarrow> ranges_loop [] n n ns)"

fun separated :: "(int \<times> int) list \<Rightarrow> bool" where
  "separated ((a, b) # (c, d) # rs) = (b + 1 < c \<and> separated ((c, d) # rs))"
| "separated rs = True"


text \<open>
  The reserved names \<open>cpu_id\<close> and \<open>isolated\<close> are no keys of the role lists of an
  object.
\<close>

definition reserved_free :: "CpuInfo \<Rightarrow> bool" where
  "reserved_free c = (''cpu_id'' \<notin> fst ` set (attrs c) \<and> ''isolated'' \<notin> fst ` set (attrs c))"




text \<open>
  The operations that mutate the registry after its creation, and a run of a sequence of
  them; as in the program, the first exception ends the run (what the operation has
  changed until then stays changed).
\<close>

datatype registry_op =
    MarkIsolated "int list option"
  | UpdateCpus "core list" "string option" string
  | ReadInstance string xml

fun apply_op :: "registry_op \<Rightarrow> CpuInfo list \<Rightarrow> (exn + unit) \<times> CpuInfo list" where
  "apply_op (MarkIsolated sys_isol_cpus) CPUS = (Inr (), get_isolated_cpu sys_isol_cpus CPUS)"
| "apply_op (UpdateCpus cores upd_param upd_instance) CPUS =
     (case update_cpus cores upd_param upd_instance CPUS of
        (Inl e, CPUS') \<Rightarrow> (Inl e, CPUS')
      | (Inr update_errors, CPUS') \<Rightarrow> (Inr (), CPUS'))"
| "apply_op (ReadInstance instance root) CPUS =
     (case get_cpu_info_bender_errors instance root CPUS of
        (Inl e, CPUS') \<Rightarrow> (Inl e, CPUS')
      | (Inr err_cpu, CPUS') \<Rightarrow> (Inr (), CPUS'))"

fun run_ops :: "registry_op list \<Rightarrow> CpuInfo list \<Rightarrow> CpuInfo list" where
  "run_ops [] CPUS = CPUS"
| "run_ops (op # ops) CPUS =
     (case apply_op op CPUS of
        (Inl e, CPUS') \<Rightarrow> CPUS'
      | (Inr u, CPUS') \<Rightarrow> run_ops ops CPUS')"

text \<open>
  \<open>keeps_ids CPUS CPUS'\<close>: the registry \<open>CPUS'\<close> has the ids of \<open>CPUS\<close>, position by
  position, and no reserved key among its role lists if \<open>CPUS\<close> had none.
\<close>

definition keeps_ids :: "CpuInfo list \<Rightarrow> CpuInfo list \<Rightarrow> bool" where
  "keeps_ids CPUS CPUS' =
     (map cpu_id CPUS' = map cpu_id CPUS \<and>
      ((\<forall>c\<in>set CPUS. reserved_free c) \<longrightarrow> (\<forall>c\<in>set CPUS'. reserved_free c)))"






section \<open>Properties of the builtins\<close>

lemma nat_less_10_cases:
  "d < (10::nat) \<Longrightarrow> d = 0 \<or> d = 1 \<or> d = 2 \<or> d = 3 \<or> d = 4 \<or> d = 5 \<or> d = 6 \<or> d = 7 \<or> d = 8 \<or> d = 9"
  by arith

lemma digit_char_isdigit: "d < 10 \<Longrightarrow> py_isdigit (digit_char d)"
  by (drule nat_less_10_cases) (auto simp: py_isdigit_def digit_char_def)

lemma digit_val_digit_char: "d < 10 \<Longrightarrow> digit_val (digit_char d) = int d"
  by (drule nat_less_10_cases) (auto simp: digit_val_def digit_char_def)

lemma isdigit_plain:
  "py_isdigit c \<Longrightarrow> \<not> py_isspace c \<and> c \<noteq> CHR ''-'' \<and> c \<noteq> CHR ''+'' \<and> c \<noteq> CHR ''_'' \<and> c \<noteq> CHR '','' \<and> c \<noteq> CHR 0x0A"
  by (auto simp: py_isdigit_def py_isspace_def)

lemma nat_digits_small: "n < 10 \<Longrightarrow> nat_digits n = [digit_char n]"
  by (simp add: nat_digits.simps [of n])

lemma nat_digits_big:
  "\<not> n < 10 \<Longrightarrow> nat_digits n = nat_digits (n div 10) @ [digit_char (n mod 10)]"
  by (simp add: nat_digits.simps [of n])

lemma nat_digits_nonempty: "nat_digits n \<noteq> []"
  by (cases "n < 10") (simp_all add: nat_digits_small nat_digits_big)

lemma nat_digits_isdigit: "c \<in> set (nat_digits n) \<Longrightarrow> py_isdigit c"
proof (induction n arbitrary: c rule: nat_digits.induct)
  case (1 n)
  show ?case
  proof (cases "n < 10")
    case True
    with "1.prems" show ?thesis
      by (simp add: nat_digits_small digit_char_isdigit)
  next
    case False
    with "1.prems" have "c \<in> set (nat_digits (n div 10)) \<or> c = digit_char (n mod 10)"
      by (auto simp: nat_digits_big)
    with False "1.IH" show ?thesis
      by (auto simp: digit_char_isdigit)
  qed
qed

lemma py_digits_all: "s \<noteq> [] \<Longrightarrow> \<forall>c\<in>set s. py_isdigit c \<Longrightarrow> py_digits s"
  by (induction s rule: py_digits.induct) (auto dest: isdigit_plain)

lemma py_digits_val_append:
  "c \<noteq> CHR ''_'' \<Longrightarrow> py_digits_val (s @ [c]) = 10 * py_digits_val s + digit_val c"
  by (simp add: py_digits_val_def)

lemma py_digits_val_nat_digits: "py_digits_val (nat_digits n) = int n"
proof (induction n rule: nat_digits.induct)
  case (1 n)
  have d: "digit_char (n mod 10) \<noteq> CHR ''_''"
    using isdigit_plain [OF digit_char_isdigit [of "n mod 10"]] by simp
  show ?case
  proof (cases "n < 10")
    case True
    with d show ?thesis
      using py_digits_val_append [of "digit_char n" "[]"]
      by (simp add: nat_digits_small digit_val_digit_char py_digits_val_def)
  next
    case False
    from False "1.IH" have "py_digits_val (nat_digits (n div 10)) = int (n div 10)" by simp
    moreover have "10 * int (n div 10) + int (n mod 10) = int n" by presburger
    ultimately show ?thesis
      using False d by (simp add: nat_digits_big py_digits_val_append digit_val_digit_char)
  qed
qed

lemma py_strip_id:
  assumes "s \<noteq> []" "\<not> py_isspace (hd s)" "\<not> py_isspace (last s)"
  shows "py_strip s = s"
proof -
  from assms have 1: "dropWhile py_isspace s = s"
    by (cases s) simp_all
  from assms have 2: "dropWhile py_isspace (rev s) = rev s"
    by (cases "rev s") (simp_all add: hd_rev)
  show ?thesis by (simp add: py_strip_def 1 2)
qed

lemma py_int_digits:
  assumes "s \<noteq> []" "\<forall>c\<in>set s. py_isdigit c"
  shows "py_int s = Some (py_digits_val s)"
proof -
  from assms have h: "py_isdigit (hd s)" and l: "py_isdigit (last s)" by simp_all
  then have "py_strip s = s"
    using assms(1) by (intro py_strip_id) (auto dest: isdigit_plain)
  moreover from h have "hd s \<noteq> CHR ''+''" "hd s \<noteq> CHR ''-''" by (auto dest: isdigit_plain)
  ultimately show ?thesis
    using assms by (cases s) (simp_all add: py_int_def py_digits_all)
qed

lemma py_int_nat_digits: "py_int (nat_digits n) = Some (int n)"
  using py_int_digits [of "nat_digits n"]
  by (simp add: nat_digits_nonempty nat_digits_isdigit py_digits_val_nat_digits)

lemma py_int_py_str: "0 \<le> i \<Longrightarrow> py_int (py_str i) = Some i"
  by (simp add: py_str_def py_int_nat_digits)

section \<open>Properties of the range codec\<close>


lemma py_split_no_sep: "sep \<notin> set s \<Longrightarrow> py_split sep s = [s]"
  by (induction s) auto

lemma py_split_append: "sep \<notin> set a \<Longrightarrow> py_split sep (a @ sep # b) = a # py_split sep b"
  by (induction a) auto

lemma py_split_join:
  "ts \<noteq> [] \<Longrightarrow> \<forall>t\<in>set ts. sep \<notin> set t \<Longrightarrow> py_split sep (py_join [sep] ts) = ts"
proof (induction ts)
  case Nil
  then show ?case by simp
next
  case (Cons t ts)
  show ?case
  proof (cases ts)
    case Nil
    with Cons.prems show ?thesis by (simp add: py_split_no_sep)
  next
    case (Cons u us)
    with Cons.prems Cons.IH show ?thesis by (simp add: py_split_append)
  qed
qed

lemma set_py_join: "set (py_join sep ts) \<subseteq> set sep \<union> \<Union> (set ` set ts)"
  by (induction ts rule: py_join.induct) auto

lemma py_str_nonneg_digits: "0 \<le> i \<Longrightarrow> c \<in> set (py_str i) \<Longrightarrow> py_isdigit c"
  by (simp add: py_str_def nat_digits_isdigit)

lemma py_str_no_char:
  "0 \<le> i \<Longrightarrow> CHR ''-'' \<notin> set (py_str i) \<and> CHR '','' \<notin> set (py_str i) \<and> CHR 0x0A \<notin> set (py_str i)"
  by (auto dest: py_str_nonneg_digits isdigit_plain)

lemma parse_token_format_range:
  assumes "0 \<le> a" "a \<le> b"
  shows "parse_token (format_range (a, b)) = Inr [a..b]"
proof (cases "a = b")
  case True
  with assms show ?thesis
    by (simp add: format_range_def parse_token_def py_str_no_char py_int_py_str)
next
  case False
  from assms have b: "0 \<le> b" by simp
  have "py_split (CHR ''-'') (py_str a @ CHR ''-'' # py_str b) = [py_str a, py_str b]"
    using assms(1) b by (simp add: py_split_append py_split_no_sep py_str_no_char)
  with False assms b show ?thesis
    by (simp add: format_range_def parse_token_def py_int_py_str)
qed

lemma format_range_chars:
  "0 \<le> a \<Longrightarrow> 0 \<le> b \<Longrightarrow> CHR '','' \<notin> set (format_range (a, b)) \<and> CHR 0x0A \<notin> set (format_range (a, b))"
  by (simp add: format_range_def py_str_no_char)

lemma cpu_sorted_loop_map:
  "\<forall>r\<in>set rs. parse_token (g r) = Inr (f r) \<Longrightarrow>
   cpu_sorted_loop res (map g rs) = Inr (res @ concat (map f rs))"
  by (induction rs arbitrary: res) simp_all

lemma ranges_loop_acc: "ranges_loop acc s p xs = acc @ ranges_loop [] s p xs"
proof (induction xs arbitrary: acc s p)
  case Nil
  show ?case by simp
next
  case (Cons x xs)
  show ?case
  proof (cases "x = p + 1")
    case True
    with Cons.IH [of acc s x] show ?thesis by simp
  next
    case False
    with Cons.IH [of "acc @ [(s, p)]" x x] Cons.IH [of "[(s, p)]" x x] show ?thesis by simp
  qed
qed

lemma ranges_loop_step:
  "ranges_loop [] s p (x # xs) =
     (if x \<noteq> p + 1 then (s, p) # ranges_loop [] x x xs else ranges_loop [] s x xs)"
  using ranges_loop_acc [of "[(s, p)]" x x xs] by simp

lemma ranges_loop_concat:
  "s \<le> p \<Longrightarrow> concat (map (\<lambda>(a, b). [a..b]) (ranges_loop [] s p xs)) = [s..p] @ xs"
proof (induction xs arbitrary: s p)
  case Nil
  show ?case by simp
next
  case (Cons x xs)
  show ?case
  proof (cases "x = p + 1")
    case True
    with Cons.prems have "[s..x] = [s..p] @ [x]"
      by (simp add: upto_rec2)
    with True Cons.prems Cons.IH [of s x] show ?thesis
      by (simp add: ranges_loop_step del: ranges_loop.simps(2))
  next
    case False
    with Cons.prems Cons.IH [of x x] show ?thesis
      by (simp add: ranges_loop_step del: ranges_loop.simps(2))
  qed
qed

lemma ranges_loop_bounds:
  "s \<le> p \<Longrightarrow> 0 \<le> s \<Longrightarrow> \<forall>x\<in>set xs. 0 \<le> x \<Longrightarrow>
   (a, b) \<in> set (ranges_loop [] s p xs) \<Longrightarrow> 0 \<le> a \<and> a \<le> b"
proof (induction xs arbitrary: s p)
  case Nil
  then show ?case by simp
next
  case (Cons x xs)
  show ?case
  proof (cases "x = p + 1")
    case True
    with Cons.prems Cons.IH [of s x] show ?thesis
      by (simp add: ranges_loop_step del: ranges_loop.simps(2))
  next
    case False
    with Cons.prems Cons.IH [of x x] show ?thesis
      by (auto simp: ranges_loop_step simp del: ranges_loop.simps(2))
  qed
qed

lemma ranges_loop_nonempty: "ranges_loop acc s p xs \<noteq> []"
  by (induction xs arbitrary: acc s p) simp_all

lemma decode_encode_nonempty:
  assumes "xs \<noteq> []" "\<forall>x\<in>set xs. 0 \<le> x"
  shows "cpu_sorted (convert_to_ranges xs) = Inr xs"
proof -
  from assms(1) obtain n ns where xs: "xs = n # ns" by (cases xs) auto
  define rs where "rs = ranges_loop [] n n ns"
  define ts where "ts = map format_range rs"
  from assms(2) xs have n0: "0 \<le> n" and ns0: "\<forall>x\<in>set ns. 0 \<le> x" by simp_all
  have bounds: "0 \<le> a \<and> a \<le> b" if "(a, b) \<in> set rs" for a b
    using ranges_loop_bounds [of n n ns a b] n0 ns0 that by (simp add: rs_def)
  have enc: "convert_to_ranges xs = py_join '','' ts"
    by (simp add: convert_to_ranges_def xs ts_def rs_def)
  have ts_ne: "ts \<noteq> []"
    by (simp add: ts_def rs_def ranges_loop_nonempty)
  have ts_chars: "CHR '','' \<notin> set t \<and> CHR 0x0A \<notin> set t" if "t \<in> set ts" for t
  proof -
    from that obtain a b where "(a, b) \<in> set rs" "t = format_range (a, b)"
      by (auto simp: ts_def)
    with bounds [of a b] show ?thesis
      using format_range_chars [of a b] by simp
  qed
  have "CHR 0x0A \<notin> set (py_join '','' ts)"
    using set_py_join [of "'',''" ts] ts_chars by auto
  then have nl: "remove_newlines (py_join '','' ts) = py_join '','' ts"
    by (auto simp: remove_newlines_def filter_id_conv)
  have split: "py_split (CHR '','') (py_join '','' ts) = ts"
    using py_split_join [of ts "CHR '',''"] ts_ne ts_chars by simp
  have "\<forall>r\<in>set rs. parse_token (format_range r) = Inr ((\<lambda>(a, b). [a..b]) r)"
    using bounds by (auto simp: parse_token_format_range)
  then have "cpu_sorted_loop [] ts = Inr ([] @ concat (map (\<lambda>(a, b). [a..b]) rs))"
    unfolding ts_def by (rule cpu_sorted_loop_map)
  also have "concat (map (\<lambda>(a, b). [a..b]) rs) = [n..n] @ ns"
    unfolding rs_def by (rule ranges_loop_concat) simp
  finally have "cpu_sorted_loop [] ts = Inr xs"
    by (simp add: xs)
  then show ?thesis
    by (simp add: cpu_sorted_def enc nl split)
qed

text \<open>
  C2 (as amended). For every non-empty, strictly ascending list \<open>xs\<close> of non-negative
  integers, decoding the encoding of \<open>xs\<close> returns \<open>xs\<close>; the empty list encodes to
  the empty string.
\<close>

theorem decode_encode_roundtrip:
  assumes "xs \<noteq> []" and "sorted_wrt (<) xs" and "\<forall>x\<in>set xs. 0 \<le> x"
  shows "cpu_sorted (convert_to_ranges xs) = Inr xs \<and> convert_to_ranges [] = ''''"
  using decode_encode_nonempty [OF assms(1) assms(3)] by (simp add: convert_to_ranges_def)

theorem decode_encode_roundtrip_witness:
  "cpu_sorted (convert_to_ranges [0, 1, 2, 7]) = Inr [0, 1, 2, 7] \<and> convert_to_ranges [] = ''''"
  using decode_encode_roundtrip [of "[0, 1, 2, 7]"] by simp

text \<open>
  C2 as stated includes the empty list, where it fails: the empty list encodes to the
  empty string, and decoding the empty string raises ValueError (\<open>int('')\<close>).
\<close>

theorem decode_encode_empty_counterexample:
  "convert_to_ranges [] = '''' \<and> cpu_sorted (convert_to_ranges []) = Inl ValueError"
  by (simp add: convert_to_ranges_def cpu_sorted_def remove_newlines_def parse_token_def
      py_int_def py_strip_def)

lemma convert_to_ranges_ranges_of:
  "convert_to_ranges xs = py_join '','' (map format_range (ranges_of xs))"
  by (cases xs) (simp_all add: convert_to_ranges_def ranges_of_def)

lemma ranges_loop_separated:
  "sorted_wrt (<) (p # xs) \<Longrightarrow> s \<le> p \<Longrightarrow>
   separated (ranges_loop [] s p xs) \<and> fst (hd (ranges_loop [] s p xs)) = s \<and>
   (\<forall>r\<in>set (ranges_loop [] s p xs). fst r \<le> snd r)"
proof (induction xs arbitrary: s p)
  case Nil
  then show ?case by simp
next
  case (Cons x xs)
  from Cons.prems have px: "p < x" and sx: "sorted_wrt (<) (x # xs)" by simp_all
  show ?case
  proof (cases "x = p + 1")
    case True
    with Cons.IH [of x s] sx Cons.prems(2) show ?thesis
      by (simp add: ranges_loop_step del: ranges_loop.simps(2))
  next
    case False
    obtain c d rs where rl: "ranges_loop [] x x xs = (c, d) # rs"
      using ranges_loop_nonempty [of "[]" x x xs] by (cases "ranges_loop [] x x xs") auto
    from Cons.IH [of x x] sx rl have "separated ((c, d) # rs)" "c = x" "\<forall>r\<in>set ((c, d) # rs). fst r \<le> snd r"
      by auto
    with False px Cons.prems(2) rl show ?thesis
      by (simp add: ranges_loop_step del: ranges_loop.simps(2))
  qed
qed

lemma ranges_of_sorted:
  assumes "sorted_wrt (<) xs"
  shows "concat (map (\<lambda>(a, b). [a..b]) (ranges_of xs)) = xs"
    and "\<forall>(a, b)\<in>set (ranges_of xs). a \<le> b"
    and "separated (ranges_of xs)"
proof -
  show "concat (map (\<lambda>(a, b). [a..b]) (ranges_of xs)) = xs"
    by (cases xs) (simp_all add: ranges_of_def ranges_loop_concat)
  show "\<forall>(a, b)\<in>set (ranges_of xs). a \<le> b"
  proof (cases xs)
    case Nil
    then show ?thesis by (simp add: ranges_of_def)
  next
    case (Cons n ns)
    with assms ranges_loop_separated [of n ns n] show ?thesis
      by (auto simp: ranges_of_def)
  qed
  show "separated (ranges_of xs)"
  proof (cases xs)
    case Nil
    then show ?thesis by (simp add: ranges_of_def)
  next
    case (Cons n ns)
    with assms ranges_loop_separated [of n ns n] show ?thesis
      by (simp add: ranges_of_def)
  qed
qed

lemma decode_example: "cpu_sorted ''0,1,2-5,111'' = Inr [0, 1, 2, 3, 4, 5, 111]"
  by (simp add: cpu_sorted_def remove_newlines_def parse_token_def py_int_def py_strip_def
      py_isspace_def py_isdigit_def py_digits_val_def digit_val_def upto.simps)

lemma encode_example: "convert_to_ranges [0, 1, 2, 3, 4, 5, 111] = ''0-5,111''"
  by (simp add: convert_to_ranges_def format_range_def py_str_def nat_digits.simps digit_char_def)

text \<open>
  C4 (as amended). Decoding \<open>0,1,2-5,111\<close> gives \<open>[0,1,2,3,4,5,111]\<close>, and encoding
  that list gives \<open>0-5,111\<close>. For a strictly ascending list the encoding is the
  comma-separated rendering of the ranges found by the loop: they expand to the input,
  a range of one integer is rendered as the bare number and a longer one as
  \<open>start-end\<close>, and no two consecutive ranges could be merged.
\<close>

theorem encode_collapses_runs:
  assumes "sorted_wrt (<) xs"
  shows "cpu_sorted ''0,1,2-5,111'' = Inr [0, 1, 2, 3, 4, 5, 111] \<and>
         convert_to_ranges [0, 1, 2, 3, 4, 5, 111] = ''0-5,111'' \<and>
         convert_to_ranges xs = py_join '','' (map format_range (ranges_of xs)) \<and>
         concat (map (\<lambda>(a, b). [a..b]) (ranges_of xs)) = xs \<and>
         (\<forall>(a, b)\<in>set (ranges_of xs). a \<le> b \<and>
            format_range (a, b) = (if a = b then py_str a else py_str a @ ''-'' @ py_str b)) \<and>
         separated (ranges_of xs)"
  using ranges_of_sorted [OF assms] decode_example encode_example
  by (auto simp: convert_to_ranges_ranges_of format_range_def)

theorem encode_collapses_runs_witness:
  "convert_to_ranges [3, 4, 9] = py_join '','' (map format_range (ranges_of [3, 4, 9])) \<and>
   ranges_of [3, 4, 9] = [(3, 4), (9, 9)] \<and>
   concat (map (\<lambda>(a, b). [a..b]) (ranges_of [3, 4, 9])) = [3, 4, 9] \<and>
   separated (ranges_of [3, 4, 9])"
  using encode_collapses_runs [of "[3, 4, 9]"] by (simp add: ranges_of_def)

text \<open>
  C4 as stated gives \<open>0,1,2-5,111\<close> as the encoding of \<open>[0,1,2,3,4,5,111]\<close>; the
  function collapses the whole run \<open>0..5\<close>.
\<close>

theorem encode_example_counterexample:
  "convert_to_ranges [0, 1, 2, 3, 4, 5, 111] = ''0-5,111'' \<and>
   convert_to_ranges [0, 1, 2, 3, 4, 5, 111] \<noteq> ''0,1,2-5,111''"
  by (simp add: encode_example)


















section \<open>Properties of the registry\<close>

lemma CpuInfo_init_fields:
  "cpu_id (CpuInfo_init i) = i" "isolated (CpuInfo_init i) = False"
  "(k, v) \<in> set (attrs (CpuInfo_init i)) \<Longrightarrow> v = []"
  by (auto simp: CpuInfo_init_def)

lemma CpuInfo_init_reserved_free: "reserved_free (CpuInfo_init i)"
  by (simp add: reserved_free_def CpuInfo_init_def role_names_def)

text \<open>
  C5 (as amended). \<open>get_all_cpus\<close> creates one entry per element of the decoded list of
  online CPUs, in order, each with \<open>isolated = False\<close> and every role list empty; it
  fails exactly when decoding fails, so repeated ids are kept, not rejected.
\<close>

theorem get_all_cpus_entries:
  "((\<exists>e. get_all_cpus data = Inl e) \<longleftrightarrow> (\<exists>e. cpu_sorted data = Inl e)) \<and>
   (\<forall>ids. cpu_sorted data = Inr ids \<longrightarrow>
      (\<exists>CPUS. get_all_cpus data = Inr CPUS \<and> map cpu_id CPUS = ids \<and>
         (\<forall>c\<in>set CPUS. isolated c = False \<and> reserved_free c \<and>
            (\<forall>(k, v)\<in>set (attrs c). v = []))))"
proof (cases "cpu_sorted data")
  case (Inl e)
  then show ?thesis by (simp add: get_all_cpus_def)
next
  case (Inr ids)
  have "map cpu_id (map CpuInfo_init ids) = ids"
    by (simp add: CpuInfo_init_fields comp_def)
  moreover have "\<forall>c\<in>set (map CpuInfo_init ids). isolated c = False \<and> reserved_free c \<and>
      (\<forall>(k, v)\<in>set (attrs c). v = [])"
    by (auto simp: CpuInfo_init_fields CpuInfo_init_reserved_free)
  ultimately show ?thesis
    using Inr by (simp add: get_all_cpus_def)
qed

theorem get_all_cpus_entries_witness:
  "\<exists>CPUS. get_all_cpus ''0-1'' = Inr CPUS \<and> map cpu_id CPUS = [0, 1] \<and>
     (\<forall>c\<in>set CPUS. isolated c = False \<and> reserved_free c \<and> (\<forall>(k, v)\<in>set (attrs c). v = []))"
proof -
  have "cpu_sorted ''0-1'' = Inr [0, 1]"
    by (simp add: cpu_sorted_def remove_newlines_def parse_token_def py_int_def py_strip_def
        py_isspace_def py_isdigit_def py_digits_val_def digit_val_def upto.simps)
  with get_all_cpus_entries [of "''0-1''"] show ?thesis by blast
qed

text \<open>
  C5 as stated has creation fail on a repeated id; the text \<open>0,0\<close> gives two entries
  with id 0.
\<close>

theorem get_all_cpus_duplicate_counterexample:
  "get_all_cpus ''0,0'' = Inr [CpuInfo_init 0, CpuInfo_init 0]"
  by (simp add: get_all_cpus_def cpu_sorted_def remove_newlines_def parse_token_def py_int_def
      py_strip_def py_isspace_def py_isdigit_def py_digits_val_def digit_val_def)

lemma check_free_loop_iff:
  "check_free_loop items \<longleftrightarrow>
   (\<forall>(parameter, val)\<in>set items.
      \<not> (truthy val \<and> parameter \<notin> set [''isolated'', ''cpu_id'', ''net_cpu'']))"
  by (induction items rule: check_free_loop.induct) auto

lemma check_free_bender_cpu_iff:
  "check_free_bender_cpu c \<longleftrightarrow>
   (\<forall>(k, v)\<in>set (attrs c). k \<notin> set [''isolated'', ''cpu_id'', ''net_cpu''] \<longrightarrow> v = [])"
  by (auto simp: check_free_bender_cpu_def check_free_loop_iff dict_items_def)

text \<open>
  C8 (as amended). \<open>check_free_bender_cpu\<close> returns true exactly when the CPU has no role
  assignment other than \<open>net_cpu\<close>; it does not look at the isolated flag. The caller
  \<open>human_view\<close> lists a CPU as unused exactly when it is isolated and the predicate holds.
\<close>

theorem check_free_bender_cpu_roles:
  assumes "reserved_free c"
  shows "(check_free_bender_cpu c \<longleftrightarrow> (\<forall>(k, v)\<in>set (attrs c). k \<noteq> ''net_cpu'' \<longrightarrow> v = [])) \<and>
         check_free_bender_cpu (c\<lparr>isolated := b\<rparr>) = check_free_bender_cpu c \<and>
         (set (free_cpus CPUS) = cpu_id ` {cpu \<in> set CPUS. isolated cpu \<and> check_free_bender_cpu cpu})"
proof -
  have "check_free_bender_cpu c \<longleftrightarrow> (\<forall>(k, v)\<in>set (attrs c). k \<noteq> ''net_cpu'' \<longrightarrow> v = [])"
    using assms unfolding check_free_bender_cpu_iff reserved_free_def
    by (force simp: image_iff)
  moreover have "check_free_bender_cpu (c\<lparr>isolated := b\<rparr>) = check_free_bender_cpu c"
    by (simp add: check_free_bender_cpu_iff)
  moreover have "set (free_cpus CPUS) = cpu_id ` {cpu \<in> set CPUS. isolated cpu \<and> check_free_bender_cpu cpu}"
    by (auto simp: free_cpus_def)
  ultimately show ?thesis by simp
qed

theorem check_free_bender_cpu_roles_witness:
  "check_free_bender_cpu (CpuInfo_init 3) \<and>
   \<not> check_free_bender_cpu ((CpuInfo_init 3)\<lparr>attrs := AList.update ''Kafka'' [''A''] (attrs (CpuInfo_init 3))\<rparr>)"
proof -
  have "reserved_free ((CpuInfo_init 3)\<lparr>attrs := AList.update ''Kafka'' [''A''] (attrs (CpuInfo_init 3))\<rparr>)"
    by (simp add: reserved_free_def CpuInfo_init_def role_names_def)
  from check_free_bender_cpu_roles [OF this] check_free_bender_cpu_roles [OF CpuInfo_init_reserved_free [of 3]]
  show ?thesis
    by (simp add: CpuInfo_init_def role_names_def)
qed

text \<open>
  C8 as stated requires the CPU to be isolated; a fresh entry is not isolated and is
  reported free.
\<close>

theorem check_free_not_isolated_counterexample:
  "check_free_bender_cpu (CpuInfo_init 0) \<and> \<not> isolated (CpuInfo_init 0)"
  by (simp add: check_free_bender_cpu_iff CpuInfo_init_def role_names_def)

lemma get_cpu_by_id_Some:
  "get_cpu_by_id cid CPUS = Some i \<Longrightarrow> i < length CPUS \<and> cpu_id (CPUS ! i) = cid"
proof (induction CPUS arbitrary: i)
  case Nil
  then show ?case by simp
next
  case (Cons c cs)
  then show ?case
    by (cases "cpu_id c = cid") auto
qed

lemma get_cpu_by_id_None: "get_cpu_by_id cid CPUS = None \<longleftrightarrow> cid \<notin> cpu_id ` set CPUS"
  by (induction CPUS) auto



lemma update_attribute_reserved:
  "name \<in> set [''cpu_id'', ''isolated''] \<Longrightarrow>
   update_attribute (Some name) v c = Inl (Exception (''update_attribute cant be used for '' @ name))"
  by (auto simp: update_attribute_def)

lemma reserved_free_update:
  "reserved_free c \<Longrightarrow> k \<noteq> ''cpu_id'' \<Longrightarrow> k \<noteq> ''isolated'' \<Longrightarrow>
   reserved_free (c\<lparr>attrs := AList.update k v (attrs c)\<rparr>)"
  by (simp add: reserved_free_def dom_update)

lemma update_attribute_Inr:
  assumes "update_attribute p v c = Inr c'"
  obtains name l where "p = Some name" "name \<noteq> ''cpu_id''" "name \<noteq> ''isolated''"
    "c' = c\<lparr>attrs := AList.update name l (attrs c)\<rparr>"
  using assms by (auto simp: update_attribute_def split: option.splits if_splits)

lemma update_attribute_fields:
  assumes "update_attribute p v c = Inr c'"
  shows "cpu_id c' = cpu_id c" "isolated c' = isolated c" "reserved_free c \<Longrightarrow> reserved_free c'"
  using assms by (auto elim!: update_attribute_Inr intro: reserved_free_update)

lemma keeps_ids_refl: "keeps_ids CPUS CPUS"
  by (simp add: keeps_ids_def)

lemma keeps_ids_trans: "keeps_ids A B \<Longrightarrow> keeps_ids B C \<Longrightarrow> keeps_ids A C"
  by (simp add: keeps_ids_def)

lemma keeps_ids_update:
  assumes "i < length CPUS" "cpu_id c' = cpu_id (CPUS ! i)" "reserved_free (CPUS ! i) \<Longrightarrow> reserved_free c'"
  shows "keeps_ids CPUS (CPUS[i := c'])"
proof -
  have "map cpu_id (CPUS[i := c']) = map cpu_id CPUS"
    using assms(1,2) by (simp add: map_update list_update_same_conv)
  moreover have "\<forall>c\<in>set (CPUS[i := c']). reserved_free c" if "\<forall>c\<in>set CPUS. reserved_free c"
  proof
    fix c assume "c \<in> set (CPUS[i := c'])"
    then have "c = c' \<or> c \<in> set CPUS"
      using set_update_subset_insert [of CPUS i c'] by auto
    with that assms(1,3) show "reserved_free c" by auto
  qed
  ultimately show ?thesis by (simp add: keeps_ids_def)
qed

lemma update_cpus_loop_keeps_ids:
  "keeps_ids CPUS (snd (update_cpus_loop errs cores p inst CPUS))"
proof (induction cores arbitrary: errs CPUS)
  case Nil
  show ?case by (simp add: keeps_ids_refl)
next
  case (Cons core cores)
  show ?case
  proof (cases "core_int core")
    case None
    then show ?thesis by (simp add: keeps_ids_refl)
  next
    case (Some cid)
    show ?thesis
    proof (cases "get_cpu_by_id cid CPUS")
      case None
      with Some Cons.IH show ?thesis by simp
    next
      case i: (Some i)
      show ?thesis
      proof (cases "update_attribute p inst (CPUS ! i)")
        case (Inl e)
        with Some i show ?thesis by (simp add: keeps_ids_refl)
      next
        case (Inr c')
        have "keeps_ids CPUS (CPUS[i := c'])"
          using get_cpu_by_id_Some [OF i] update_attribute_fields [OF Inr]
          by (intro keeps_ids_update) auto
        with Cons.IH [where CPUS = "CPUS[i := c']" and errs = errs] Some i Inr show ?thesis
          by (auto intro: keeps_ids_trans)
      qed
    qed
  qed
qed

lemma update_cpus_keeps_ids: "keeps_ids CPUS (snd (update_cpus cores p inst CPUS))"
  by (simp add: update_cpus_def update_cpus_loop_keeps_ids)










lemma reserved_free_isolated: "reserved_free (c\<lparr>isolated := b\<rparr>) = reserved_free c"
  by (simp add: reserved_free_def)

lemma mark_keeps_ids:
  "keeps_ids CPUS (map (\<lambda>cpu. if cpu_id cpu \<in> S then cpu\<lparr>isolated := True\<rparr> else cpu) CPUS)"
proof -
  have "map cpu_id (map (\<lambda>cpu. if cpu_id cpu \<in> S then cpu\<lparr>isolated := True\<rparr> else cpu) CPUS) =
        map cpu_id CPUS"
    by (induction CPUS) simp_all
  moreover have "reserved_free c"
    if "\<forall>c\<in>set CPUS. reserved_free c"
      and "c \<in> set (map (\<lambda>cpu. if cpu_id cpu \<in> S then cpu\<lparr>isolated := True\<rparr> else cpu) CPUS)" for c
    using that by (auto simp: reserved_free_isolated split: if_splits)
  ultimately show ?thesis
    unfolding keeps_ids_def by blast
qed

lemma get_isolated_cpu_keeps_ids: "keeps_ids CPUS (get_isolated_cpu l CPUS)"
  by (simp add: get_isolated_cpu_def keeps_ids_refl mark_keeps_ids split: option.splits)

lemma extend_errors_keeps_ids:
  "keeps_ids CPUS (snd (extend_errors node name inst err CPUS))"
proof (cases "xml_get node ''Cores''")
  case None
  then show ?thesis by (simp add: extend_errors_def keeps_ids_refl)
next
  case (Some cores)
  obtain r C' where u: "update_cpus (map CoreStr (py_split (CHR '','') cores)) name inst CPUS = (r, C')"
    by (cases "update_cpus (map CoreStr (py_split (CHR '','') cores)) name inst CPUS")
  with update_cpus_keeps_ids [of CPUS "map CoreStr (py_split (CHR '','') cores)" name inst]
  have "keeps_ids CPUS C'" by simp
  with Some u show ?thesis
    by (cases r) (simp_all add: extend_errors_def)
qed

lemma step_keeps_ids:
  assumes "keeps_ids CPUS (snd x)" and "\<And>err' C'. keeps_ids C' (snd (k err' C'))"
  shows "keeps_ids CPUS (snd (case x of (Inl e, C') \<Rightarrow> (Inl e, C') | (Inr err', C') \<Rightarrow> k err' C'))"
proof -
  obtain r C' where x: "x = (r, C')" by (cases x)
  show ?thesis
  proof (cases r)
    case (Inl e)
    with x assms(1) show ?thesis by simp
  next
    case (Inr err')
    with x assms(1) assms(2) [of C' err'] show ?thesis
      by (auto intro: keeps_ids_trans)
  qed
qed

lemma parameters_loop_keeps_ids:
  "keeps_ids CPUS (snd (parameters_loop ps root inst err CPUS))"
proof (induction ps arbitrary: err CPUS)
  case Nil
  show ?case by (simp add: keeps_ids_refl)
next
  case (Cons p ps)
  show ?case
  proof (cases "xml_find root p")
    case None
    with Cons.IH show ?thesis by simp
  next
    case (Some obj)
    then show ?thesis
      using step_keeps_ids [OF extend_errors_keeps_ids [of CPUS obj "Some p" inst err],
          of "\<lambda>err' C'. parameters_loop ps root inst err' C'"] Cons.IH
      by simp
  qed
qed

lemma alias_loop_keeps_ids:
  "keeps_ids CPUS (snd (alias_loop as inst err CPUS))"
proof (induction as arbitrary: err CPUS)
  case Nil
  show ?case by (simp add: keeps_ids_refl)
next
  case (Cons a as)
  show ?case
    using step_keeps_ids [OF extend_errors_keeps_ids [of CPUS a "xml_get a ''Name''" inst err],
        of "\<lambda>err' C'. alias_loop as inst err' C'"] Cons.IH
    by simp
qed

lemma udp_loop_keeps_ids:
  "keeps_ids CPUS (snd (udp_loop ts root inst err CPUS))"
proof (induction ts arbitrary: err CPUS)
  case Nil
  show ?case by (simp add: keeps_ids_refl)
next
  case (Cons t ts)
  show ?case
  proof (cases "length (xpath root [''Udp'', t, ''CPU'']) = 1")
    case False
    with Cons.IH show ?thesis by (simp add: Let_def)
  next
    case True
    then show ?thesis
      using step_keeps_ids [OF extend_errors_keeps_ids
            [of CPUS "xpath root [''Udp'', t, ''CPU''] ! 0" "Some (''Udp'' @ t @ ''Cores'')" inst err],
          of "\<lambda>err' C'. udp_loop ts root inst err' C'"] Cons.IH
      by (simp add: Let_def)
  qed
qed

lemma special_loop_keeps_ids:
  "keeps_ids CPUS (snd (special_loop sp root inst err CPUS))"
proof (induction sp arbitrary: err CPUS)
  case Nil
  show ?case by (simp add: keeps_ids_refl)
next
  case (Cons s sp)
  obtain path name where s: "s = (path, name)" by (cases s)
  show ?case
  proof (cases "length (xpath root path) = 1")
    case False
    with Cons.IH s show ?thesis by (simp add: Let_def)
  next
    case True
    then show ?thesis
      using step_keeps_ids [OF extend_errors_keeps_ids
            [of CPUS "xpath root path ! 0" "Some name" inst err],
          of "\<lambda>err' C'. special_loop sp root inst err' C'"] Cons.IH s
      by (simp add: Let_def)
  qed
qed

lemma run_lookups_keeps_ids:
  "keeps_ids CPUS (snd (run_lookups ps ts sp inst root CPUS))"
  unfolding run_lookups_def
  by (intro step_keeps_ids parameters_loop_keeps_ids alias_loop_keeps_ids udp_loop_keeps_ids
      special_loop_keeps_ids)

lemma apply_op_keeps_ids: "keeps_ids CPUS (snd (apply_op op CPUS))"
proof (cases op)
  case (MarkIsolated l)
  then show ?thesis by (simp add: get_isolated_cpu_keeps_ids)
next
  case (UpdateCpus cores p inst)
  obtain r C' where u: "update_cpus cores p inst CPUS = (r, C')"
    by (cases "update_cpus cores p inst CPUS")
  with update_cpus_keeps_ids [of CPUS cores p inst] UpdateCpus show ?thesis
    by (cases r) simp_all
next
  case (ReadInstance inst root)
  obtain r C' where u: "get_cpu_info_bender_errors inst root CPUS = (r, C')"
    by (cases "get_cpu_info_bender_errors inst root CPUS")
  with run_lookups_keeps_ids [of CPUS parameters_list udp_types special_params inst root]
    ReadInstance show ?thesis
    by (cases r) (simp_all add: get_cpu_info_bender_errors_def)
qed

lemma run_ops_keeps_ids: "keeps_ids CPUS (run_ops ops CPUS)"
proof (induction ops arbitrary: CPUS)
  case Nil
  show ?case by (simp add: keeps_ids_refl)
next
  case (Cons op ops)
  obtain r C' where a: "apply_op op CPUS = (r, C')" by (cases "apply_op op CPUS")
  with apply_op_keeps_ids [of CPUS op] have k: "keeps_ids CPUS C'" by simp
  show ?case
  proof (cases r)
    case (Inl e)
    with a k show ?thesis by simp
  next
    case (Inr u)
    with a k Cons.IH [of C'] show ?thesis
      by (auto intro: keeps_ids_trans)
  qed
qed

text \<open>
  C9. In a registry created by \<open>get_all_cpus\<close>, after any sequence of registry
  operations (marking isolated CPUs, batches of role assignments, reading instance
  configurations), every entry still has the id it was created with, and no entry has
  \<open>cpu_id\<close> or \<open>isolated\<close> among the keys of its role lists. \<open>update_attribute\<close> under
  one of these two names raises, and a request that reaches it leaves the registry
  unchanged.
\<close>

theorem reserved_names_protected:
  assumes "get_all_cpus data = Inr CPUS"
  shows "map cpu_id (run_ops ops CPUS) = map cpu_id CPUS \<and>
         (\<forall>c\<in>set (run_ops ops CPUS). reserved_free c) \<and>
         (\<forall>name\<in>set [''cpu_id'', ''isolated'']. \<forall>v c.
            update_attribute (Some name) v c =
              Inl (Exception (''update_attribute cant be used for '' @ name))) \<and>
         (\<forall>name\<in>set [''cpu_id'', ''isolated'']. \<forall>core cid v R.
            core_int core = Some cid \<and> cid \<in> cpu_id ` set R \<longrightarrow>
            update_cpus [core] (Some name) v R =
              (Inl (Exception (''update_attribute cant be used for '' @ name)), R))"
proof -
  from assms obtain ids where "CPUS = map CpuInfo_init ids"
    by (auto simp: get_all_cpus_def split: sum.splits)
  then have "\<forall>c\<in>set CPUS. reserved_free c"
    by (auto simp: CpuInfo_init_reserved_free)
  with run_ops_keeps_ids [of CPUS ops]
  have 1: "map cpu_id (run_ops ops CPUS) = map cpu_id CPUS"
    and 2: "\<forall>c\<in>set (run_ops ops CPUS). reserved_free c"
    by (simp_all add: keeps_ids_def)
  have 3: "update_attribute (Some name) v c =
        Inl (Exception (''update_attribute cant be used for '' @ name))"
    if "name \<in> set [''cpu_id'', ''isolated'']" for name v c
    using that by (rule update_attribute_reserved)
  have 4: "update_cpus [core] (Some name) v R =
        (Inl (Exception (''update_attribute cant be used for '' @ name)), R)"
    if "name \<in> set [''cpu_id'', ''isolated'']" "core_int core = Some cid" "cid \<in> cpu_id ` set R"
    for name core cid v R
  proof -
    from that(3) obtain i where "get_cpu_by_id cid R = Some i"
      using get_cpu_by_id_None [of cid R] by (cases "get_cpu_by_id cid R") auto
    with that(2) 3 [OF that(1)] show ?thesis
      by (simp add: update_cpus_def)
  qed
  from 1 2 3 4 show ?thesis by blast
qed

theorem reserved_names_protected_witness:
  "map cpu_id (run_ops [MarkIsolated (Some [1]), UpdateCpus [CoreInt 1] (Some ''Kafka'') ''A'',
                        UpdateCpus [CoreInt 0] (Some ''cpu_id'') ''A'']
                 [CpuInfo_init 0, CpuInfo_init 1]) = [0, 1] \<and>
   update_cpus [CoreInt 0] (Some ''cpu_id'') ''A'' [CpuInfo_init 0, CpuInfo_init 1] =
     (Inl (Exception ''update_attribute cant be used for cpu_id''), [CpuInfo_init 0, CpuInfo_init 1])"
proof -
  have g: "get_all_cpus ''0-1'' = Inr [CpuInfo_init 0, CpuInfo_init 1]"
    by (simp add: get_all_cpus_def cpu_sorted_def remove_newlines_def parse_token_def py_int_def
        py_strip_def py_isspace_def py_isdigit_def py_digits_val_def digit_val_def upto.simps)
  note t = reserved_names_protected [OF g,
      of "[MarkIsolated (Some [1]), UpdateCpus [CoreInt 1] (Some ''Kafka'') ''A'',
           UpdateCpus [CoreInt 0] (Some ''cpu_id'') ''A'']"]
  from t have 1: "map cpu_id (run_ops [MarkIsolated (Some [1]),
        UpdateCpus [CoreInt 1] (Some ''Kafka'') ''A'', UpdateCpus [CoreInt 0] (Some ''cpu_id'') ''A'']
        [CpuInfo_init 0, CpuInfo_init 1]) = map cpu_id [CpuInfo_init 0, CpuInfo_init 1]"
    by (rule conjunct1)
  have ids: "map cpu_id [CpuInfo_init 0, CpuInfo_init 1] = [0, 1]"
    by (simp add: CpuInfo_init_def)
  from t have all4: "\<forall>name\<in>set [''cpu_id'', ''isolated'']. \<forall>core cid v R.
            core_int core = Some cid \<and> cid \<in> cpu_id ` set R \<longrightarrow>
            update_cpus [core] (Some name) v R =
              (Inl (Exception (''update_attribute cant be used for '' @ name)), R)"
    by (rule conjunct2 [OF conjunct2 [OF conjunct2]])
  have m: "''cpu_id'' \<in> set [''cpu_id'', ''isolated'']" by simp
  have c: "core_int (CoreInt 0) = Some 0 \<and> 0 \<in> cpu_id ` set [CpuInfo_init 0, CpuInfo_init 1]"
    by (simp add: CpuInfo_init_def)
  have app: "''update_attribute cant be used for '' @ ''cpu_id'' =
             ''update_attribute cant be used for cpu_id''"
    by simp
  from all4 [rule_format, OF m c, of "''A''"]
  have 2: "update_cpus [CoreInt 0] (Some ''cpu_id'') ''A'' [CpuInfo_init 0, CpuInfo_init 1] =
      (Inl (Exception ''update_attribute cant be used for cpu_id''),
       [CpuInfo_init 0, CpuInfo_init 1])"
    unfolding app .
  from 1 [unfolded ids] 2 show ?thesis
    by (rule conjI)
qed

section \<open>Properties of the consistency check\<close>










section \<open>Properties of the instance configuration lookups\<close>


















end
